theory Spec2Isabelle
  imports Main
begin

section \<open>Data model (models.py)\<close>

text \<open>
  The two tables of the application. The primary keys are called \<open>id\<close> in the source;
  they are \<open>p_id\<close> and \<open>s_id\<close> here, as \<open>id\<close> is the identity function of HOL.
  Python integers are unbounded, hence \<open>int\<close>.
\<close>

record Player =
  p_id :: int
  p_name :: string
  p_team :: string

record Score =
  s_id :: int
  player_id :: int
  gameweek :: int
  week_points :: int
  week_cost :: int
  overall_points :: int

text \<open>
  The table \<open>scores\<close>: its rows in rowid order. The primary key makes the ids of a
  real table pairwise distinct (\<open>wf_store\<close>).
\<close>

type_synonym store = "Score list"

definition wf_store :: "store \<Rightarrow> bool" where
  "wf_store db \<longleftrightarrow> distinct (map s_id db)"

text \<open>The check constraints that models.py puts on the columns of \<open>scores\<close>.\<close>

definition check_constraints :: "Score \<Rightarrow> bool" where
  "check_constraints s \<longleftrightarrow>
     1 \<le> gameweek s \<and> gameweek s \<le> 38 \<and> 0 \<le> week_points s \<and> 0 \<le> week_cost s
     \<and> 0 \<le> overall_points s"

section \<open>The database session (the collaborator of main.py)\<close>

text \<open>
  A handler works on the rows its session sees: the committed table and the writes of the
  session so far, since the session flushes pending writes before every query (autoflush).
  So a handler threads a working copy \<open>w\<close> of the table through its statements, and
  \<open>session.commit()\<close> makes the working copy the table. Whether the database takes the
  transaction (check constraints, I/O) is not decided by main.py: it is the parameter
  \<open>db_accepts\<close>. When it does not, the call raises, \<open>get_db\<close> closes the session and the
  transaction is rolled back: the table is as it was before the request.
\<close>

datatype error = HTTPException nat | ValueError | DatabaseError

datatype response = RedirectResponse string nat

type_synonym outcome = "(error + response) \<times> store"

definition session_get :: "store \<Rightarrow> int \<Rightarrow> Score option" where
  "session_get w i = find (\<lambda>s. s_id s = i) w"

text \<open>\<open>session.add\<close> of a loaded object: the row with its primary key takes its fields.\<close>

definition session_add :: "store \<Rightarrow> Score \<Rightarrow> store" where
  "session_add w row = map (\<lambda>s. if s_id s = s_id row then row else s) w"

text \<open>
  \<open>session.add\<close> of a new object (\<open>id = None\<close>): the row is appended with the next rowid,
  one more than the largest one in the table (1 in an empty table).
\<close>

definition next_id :: "store \<Rightarrow> int" where
  "next_id w = fold max (map s_id w) 0 + 1"

definition session_insert :: "store \<Rightarrow> Score \<Rightarrow> store" where
  "session_insert w row = w @ [row\<lparr>s_id := next_id w\<rparr>]"

definition session_delete :: "store \<Rightarrow> Score \<Rightarrow> store" where
  "session_delete w row = filter (\<lambda>s. s_id s \<noteq> s_id row) w"

definition session_commit :: "(store \<Rightarrow> bool) \<Rightarrow> store \<Rightarrow> store option" where
  "session_commit db_accepts w = (if db_accepts w then Some w else None)"

text \<open>The end of a handler: commit, then redirect; the table is unchanged on an error.\<close>

definition commit_and_redirect :: "(store \<Rightarrow> bool) \<Rightarrow> store \<Rightarrow> store \<Rightarrow> string \<Rightarrow> outcome" where
  "commit_and_redirect db_accepts db w url =
     (case session_commit db_accepts w of
        None \<Rightarrow> (Inl DatabaseError, db)
      | Some db' \<Rightarrow> (Inr (RedirectResponse url 302), db'))"

section \<open>GET /scores (main.py, scores)\<close>

text \<open>
  The query parameters are optional strings. \<open>str.strip\<close> and the built-in \<open>int\<close> of
  Python are parameters (\<open>py_int v = None\<close> when \<open>int(v)\<close> raises ValueError). The
  result is the list \<open>scores\<close> of the template context with its \<open>player_id\<close> and
  \<open>gameweek\<close> entries.
\<close>

definition scores ::
  "(string \<Rightarrow> string) \<Rightarrow> (string \<Rightarrow> int option) \<Rightarrow> store \<Rightarrow> string option \<Rightarrow> string option
     \<Rightarrow> Score list \<times> int option \<times> int option" where
  "scores py_strip py_int db player_id_q gameweek_q =
     (let query = (\<lambda>s. True);
          (player_id_int, query) =
            (case player_id_q of
               None \<Rightarrow> (None, query)
             | Some v \<Rightarrow>
                 if v \<noteq> [] \<and> py_strip v \<noteq> [] then
                   (case py_int v of
                      Some n \<Rightarrow> (Some n, (\<lambda>s. query s \<and> player_id s = n))
                    | None \<Rightarrow> (None, query))
                 else (None, query));
          (gameweek_int, query) =
            (case gameweek_q of
               None \<Rightarrow> (None, query)
             | Some v \<Rightarrow>
                 if v \<noteq> [] \<and> py_strip v \<noteq> [] then
                   (case py_int v of
                      Some n \<Rightarrow> (Some n, (\<lambda>s. query s \<and> gameweek s = n))
                    | None \<Rightarrow> (None, query))
                 else (None, query))
      in (filter query db, player_id_int, gameweek_int))"

section \<open>POST /scores (main.py, create_scores_bulk)\<close>

text \<open>
  The form: the field \<open>gameweek\<close> and, for the player with id \<open>i\<close>, the fields
  \<open>week_points_i\<close> and \<open>week_cost_i\<close>.
\<close>

datatype form_key = Gameweek_key | Week_points_key int | Week_cost_key int

type_synonym form_data = "form_key \<Rightarrow> string option"

text \<open>
  The loop over the players, on the working copy; a ValueError of \<open>int\<close> ends it. A
  field that is missing or empty is falsy and the player is skipped. The new object has
  no id before it is inserted: its \<open>s_id\<close> here is a placeholder that
  \<open>session_insert\<close> replaces.
\<close>

fun bulk_players ::
  "(string \<Rightarrow> int option) \<Rightarrow> form_data \<Rightarrow> int \<Rightarrow> store \<Rightarrow> Player list \<Rightarrow> error + store" where
  "bulk_players py_int form gw w [] = Inr w"
| "bulk_players py_int form gw w (player # players) =
     (case (form (Week_points_key (p_id player)), form (Week_cost_key (p_id player))) of
        (Some wp_str, Some wc_str) \<Rightarrow>
          if wp_str = [] \<or> wc_str = [] then bulk_players py_int form gw w players
          else
            (case py_int wp_str of
               None \<Rightarrow> Inl ValueError
             | Some wp \<Rightarrow>
                 (case py_int wc_str of
                    None \<Rightarrow> Inl ValueError
                  | Some wc \<Rightarrow>
                      (case find (\<lambda>s. player_id s = p_id player \<and> gameweek s = gw) w of
                         Some existing_score \<Rightarrow>
                           bulk_players py_int form gw
                             (session_add w (existing_score\<lparr>week_points := wp, week_cost := wc\<rparr>))
                             players
                       | None \<Rightarrow>
                           (let existing_scores = filter (\<lambda>s. player_id s = p_id player) w;
                                total_points =
                                  sum_list (map (\<lambda>s. week_points s - week_cost s) existing_scores)
                                  + wp - wc
                            in bulk_players py_int form gw
                                 (session_insert w
                                    \<lparr>s_id = 0, player_id = p_id player, gameweek = gw,
                                     week_points = wp, week_cost = wc,
                                     overall_points = total_points\<rparr>)
                                 players))))
      | _ \<Rightarrow> bulk_players py_int form gw w players)"

text \<open>\<open>int(form_data.get("gameweek", 1))\<close>: \<open>None\<close> is the ValueError.\<close>

definition form_gameweek :: "(string \<Rightarrow> int option) \<Rightarrow> form_data \<Rightarrow> int option" where
  "form_gameweek py_int form = (case form Gameweek_key of None \<Rightarrow> Some 1 | Some v \<Rightarrow> py_int v)"

text \<open>
  The handler; \<open>players\<close> is the table of the players, which it reads in full. An
  exception leaves the table as it was: nothing is committed before the last statement.
\<close>

definition create_scores_bulk ::
  "(string \<Rightarrow> int option) \<Rightarrow> (store \<Rightarrow> bool) \<Rightarrow> Player list \<Rightarrow> store \<Rightarrow> form_data \<Rightarrow> outcome" where
  "create_scores_bulk py_int db_accepts players db form =
     (case form_gameweek py_int form of
        None \<Rightarrow> (Inl ValueError, db)
      | Some gw \<Rightarrow>
          (case bulk_players py_int form gw db players of
             Inl e \<Rightarrow> (Inl e, db)
           | Inr w \<Rightarrow> commit_and_redirect db_accepts db w ''/scores''))"

section \<open>POST /scores/{score_id} (main.py, update_score)\<close>

text \<open>
  The loop over the subsequent scores, each total a rescan of the working copy (which
  holds the edited record with its new fields, flushed before the query).
\<close>

fun recalculate :: "int \<Rightarrow> store \<Rightarrow> Score list \<Rightarrow> store" where
  "recalculate pid w [] = w"
| "recalculate pid w (subsequent_score # rest) =
     (let scores_up_to_week =
            filter (\<lambda>s. player_id s = pid \<and> gameweek s \<le> gameweek subsequent_score) w;
          subsequent_total =
            sum_list (map (\<lambda>s. week_points s - week_cost s) scores_up_to_week)
      in recalculate pid
           (session_add w (subsequent_score\<lparr>overall_points := subsequent_total\<rparr>)) rest)"

text \<open>
  The handler. The other scores are read before the record is changed; the subsequent
  scores are read after it, ordered by gameweek (\<open>sort_key\<close>).
\<close>

definition update_score ::
  "(store \<Rightarrow> bool) \<Rightarrow> store \<Rightarrow> int \<Rightarrow> int \<Rightarrow> int \<Rightarrow> int \<Rightarrow> int \<Rightarrow> outcome" where
  "update_score db_accepts db score_id new_player_id new_gameweek new_points new_cost =
     (case session_get db score_id of
        None \<Rightarrow> (Inl (HTTPException 404), db)
      | Some score \<Rightarrow>
          (let other_scores =
                 filter (\<lambda>s. player_id s = new_player_id \<and> gameweek s \<le> new_gameweek
                            \<and> s_id s \<noteq> score_id) db;
               total_points =
                 sum_list (map (\<lambda>s. week_points s - week_cost s) other_scores)
                 + (new_points - new_cost);
               w = session_add db
                     (score\<lparr>player_id := new_player_id, gameweek := new_gameweek,
                            week_points := new_points, week_cost := new_cost,
                            overall_points := total_points\<rparr>);
               subsequent_scores =
                 sort_key gameweek
                   (filter (\<lambda>s. player_id s = new_player_id \<and> gameweek s > new_gameweek) w)
           in commit_and_redirect db_accepts db
                (recalculate new_player_id w subsequent_scores) ''/scores''))"

section \<open>DELETE /scores/{score_id} and POST /scores/{score_id}/delete\<close>

text \<open>The two routes have the same body.\<close>

definition delete_score :: "(store \<Rightarrow> bool) \<Rightarrow> store \<Rightarrow> int \<Rightarrow> outcome" where
  "delete_score db_accepts db score_id =
     (case session_get db score_id of
        None \<Rightarrow> (Inl (HTTPException 404), db)
      | Some score \<Rightarrow> commit_and_redirect db_accepts db (session_delete db score) ''/scores'')"

definition delete_score_form :: "(store \<Rightarrow> bool) \<Rightarrow> store \<Rightarrow> int \<Rightarrow> outcome" where
  "delete_score_form db_accepts db score_id =
     (case session_get db score_id of
        None \<Rightarrow> (Inl (HTTPException 404), db)
      | Some score \<Rightarrow> commit_and_redirect db_accepts db (session_delete db score) ''/scores'')"

section \<open>The specification's formulas\<close>

text \<open>
  The running total of the specification (section 3): the sum of points minus cost over
  the records of player \<open>pid\<close> with a gameweek up to \<open>k\<close>.
\<close>

definition cumulative_total :: "int \<Rightarrow> int \<Rightarrow> store \<Rightarrow> int" where
  "cumulative_total pid k db =
     sum_list (map (\<lambda>s. week_points s - week_cost s)
       (filter (\<lambda>s. player_id s = pid \<and> gameweek s \<le> k) db))"



text \<open>
  The writes of an update as section 4.2 lists them (steps 1 to 4): the edited record
  with its new fields and total, then every later record of the new player with its total
  rescanned.
\<close>

definition update_writes :: "store \<Rightarrow> int \<Rightarrow> int \<Rightarrow> int \<Rightarrow> int \<Rightarrow> int \<Rightarrow> store" where
  "update_writes db score_id p g wp wc =
     (let total = sum_list (map (\<lambda>s. week_points s - week_cost s)
                    (filter (\<lambda>s. player_id s = p \<and> gameweek s \<le> g \<and> s_id s \<noteq> score_id) db))
                  + (wp - wc);
          w = map (\<lambda>s. if s_id s = score_id
                        then s\<lparr>player_id := p, gameweek := g, week_points := wp,
                               week_cost := wc, overall_points := total\<rparr>
                        else s) db
      in map (\<lambda>s. if player_id s = p \<and> gameweek s > g
                    then s\<lparr>overall_points := cumulative_total p (gameweek s) w\<rparr> else s) w)"

text \<open>The edited row and the rescan as two maps.\<close>

definition edit_row :: "int \<Rightarrow> int \<Rightarrow> int \<Rightarrow> int \<Rightarrow> int \<Rightarrow> int \<Rightarrow> Score \<Rightarrow> Score" where
  "edit_row sid p g wp wc tot s =
     (if s_id s = sid
      then s\<lparr>player_id := p, gameweek := g, week_points := wp, week_cost := wc,
             overall_points := tot\<rparr>
      else s)"

definition others_total :: "store \<Rightarrow> int \<Rightarrow> int \<Rightarrow> int \<Rightarrow> int" where
  "others_total db sid p g =
     sum_list (map (\<lambda>s. week_points s - week_cost s)
       (filter (\<lambda>s. player_id s = p \<and> gameweek s \<le> g \<and> s_id s \<noteq> sid) db))"

definition rescan_row :: "int \<Rightarrow> int \<Rightarrow> store \<Rightarrow> Score \<Rightarrow> Score" where
  "rescan_row p g w s =
     (if player_id s = p \<and> gameweek s > g
      then s\<lparr>overall_points := cumulative_total p (gameweek s) w\<rparr> else s)"

section \<open>One turn of the upload loop\<close>

text \<open>The loop of \<open>create_scores_bulk\<close> for a single player.\<close>

definition bulk_player ::
  "(string \<Rightarrow> int option) \<Rightarrow> form_data \<Rightarrow> int \<Rightarrow> store \<Rightarrow> Player \<Rightarrow> error + store" where
  "bulk_player py_int form gw w player = bulk_players py_int form gw w [player]"

text \<open>Both fields of a player are in the form and not empty.\<close>

definition submitted :: "form_data \<Rightarrow> int \<Rightarrow> bool" where
  "submitted form i \<longleftrightarrow>
     (case (form (Week_points_key i), form (Week_cost_key i)) of
        (Some a, Some b) \<Rightarrow> a \<noteq> [] \<and> b \<noteq> []
      | _ \<Rightarrow> False)"

text \<open>
  What an upload for gameweek \<open>gw\<close> with points \<open>wp\<close> and cost \<open>wc\<close> makes of the rows
  of one player: the first row of that gameweek takes the points and the cost, or, when
  there is none, a row with id \<open>i\<close> is added whose total is the sum over all the rows
  plus the points minus the cost.
\<close>

definition upload_rows :: "int \<Rightarrow> int \<Rightarrow> int \<Rightarrow> int \<Rightarrow> int \<Rightarrow> Score list \<Rightarrow> Score list" where
  "upload_rows pid gw wp wc i rows =
     (case find (\<lambda>s. gameweek s = gw) rows of
        Some e \<Rightarrow>
          map (\<lambda>s. if s_id s = s_id e then s\<lparr>week_points := wp, week_cost := wc\<rparr> else s) rows
      | None \<Rightarrow>
          rows @ [\<lparr>s_id = i, player_id = pid, gameweek = gw, week_points = wp, week_cost = wc,
                   overall_points =
                     sum_list (map (\<lambda>s. week_points s - week_cost s) rows) + wp - wc\<rparr>])"

section \<open>Reachable tables\<close>



section \<open>Example data\<close>

text \<open>
  A decimal reading of a string, standing for the built-in \<open>int\<close> of Python where an
  example needs a concrete one: an optional minus sign and ASCII digits.
\<close>

definition digit :: "char \<Rightarrow> nat option" where
  "digit c = (let n = (of_char c :: nat) in if 48 \<le> n \<and> n \<le> 57 then Some (n - 48) else None)"

fun digits :: "string \<Rightarrow> nat \<Rightarrow> nat option" where
  "digits [] acc = Some acc"
| "digits (c # cs) acc = (case digit c of None \<Rightarrow> None | Some d \<Rightarrow> digits cs (10 * acc + d))"

definition decimal_int :: "string \<Rightarrow> int option" where
  "decimal_int v =
     (case v of
        [] \<Rightarrow> None
      | c # cs \<Rightarrow>
          if c = CHR ''-'' then (if cs = [] then None else map_option (\<lambda>n. - int n) (digits cs 0))
          else map_option int (digits v 0))"

text \<open>The database of the example in section 8 of the specification, and a second player.\<close>

definition example_db :: store where
  "example_db =
     [\<lparr>s_id = 1, player_id = 1, gameweek = 1, week_points = 50, week_cost = 0, overall_points = 50\<rparr>,
      \<lparr>s_id = 2, player_id = 1, gameweek = 2, week_points = 40, week_cost = 5, overall_points = 85\<rparr>,
      \<lparr>s_id = 3, player_id = 2, gameweek = 1, week_points = 10, week_cost = 0, overall_points = 10\<rparr>]"

definition example_players :: "Player list" where
  "example_players =
     [\<lparr>p_id = 1, p_name = ''P'', p_team = ''A''\<rparr>, \<lparr>p_id = 2, p_name = ''Q'', p_team = ''B''\<rparr>]"




text \<open>An upload that overwrites gameweek 1: player 1 with 60 points, player 2 with 20.\<close>

definition upload_again_gw1 :: form_data where
  "upload_again_gw1 k =
     (case k of
        Gameweek_key \<Rightarrow> Some ''1''
      | Week_points_key i \<Rightarrow> if i = 1 then Some ''60'' else if i = 2 then Some ''20'' else None
      | Week_cost_key i \<Rightarrow> if i = 1 \<or> i = 2 then Some ''0'' else None)"


section \<open>Facts about the session\<close>

lemma session_get_None: "session_get w i = None \<longleftrightarrow> i \<notin> set (map s_id w)"
  by (auto simp: session_get_def find_None_iff)

lemma session_get_Some: "session_get w i = Some s \<Longrightarrow> s \<in> set w \<and> s_id s = i"
  by (auto simp: session_get_def find_Some_iff)


lemma wf_store_inj: "wf_store w \<Longrightarrow> x \<in> set w \<Longrightarrow> y \<in> set w \<Longrightarrow> s_id x = s_id y \<Longrightarrow> x = y"
  by (auto simp: wf_store_def distinct_map inj_on_def)

lemma session_add_ids: "map s_id (session_add w row) = map s_id w"
  by (simp add: session_add_def)

lemma wf_store_session_add: "wf_store w \<Longrightarrow> wf_store (session_add w row)"
  by (simp add: wf_store_def session_add_ids)

lemma session_add_modify:
  assumes "wf_store w" and "x \<in> set w" and "s_id (f x) = s_id x"
  shows "session_add w (f x) = map (\<lambda>s. if s_id s = s_id x then f s else s) w"
  unfolding session_add_def
  by (rule map_cong) (use assms wf_store_inj in auto)

text \<open>A write that changes totals only changes no running total.\<close>

lemma cumulative_total_map:
  assumes "\<And>s. player_id (f s) = player_id s" "\<And>s. gameweek (f s) = gameweek s"
    "\<And>s. week_points (f s) = week_points s" "\<And>s. week_cost (f s) = week_cost s"
  shows "cumulative_total pid k (map f w) = cumulative_total pid k w"
  by (induction w) (simp_all add: cumulative_total_def assms)

text \<open>
  The loop over the subsequent scores gives each of them the running total of the table
  the loop started with.
\<close>

lemma recalculate_eq:
  "wf_store w \<Longrightarrow> set subs \<subseteq> set w \<Longrightarrow> distinct (map s_id subs) \<Longrightarrow>
   recalculate pid w subs =
     map (\<lambda>s. if s_id s \<in> s_id ` set subs
               then s\<lparr>overall_points := cumulative_total pid (gameweek s) w\<rparr> else s) w"
proof (induction subs arbitrary: w)
  case Nil
  then show ?case by (simp add: map_idI)
next
  case (Cons sub rest)
  let ?t = "cumulative_total pid (gameweek sub) w"
  let ?g = "\<lambda>s. if s_id s = s_id sub then s\<lparr>overall_points := ?t\<rparr> else s"
  let ?w' = "map ?g w"
  have sub: "sub \<in> set w" using Cons.prems by simp
  have add: "session_add w (sub\<lparr>overall_points := ?t\<rparr>) = ?w'"
    using session_add_modify[OF Cons.prems(1) sub, of "\<lambda>s. s\<lparr>overall_points := ?t\<rparr>"] by simp
  have wf': "wf_store ?w'"
    using wf_store_session_add[OF Cons.prems(1)] add by metis
  have rest': "set rest \<subseteq> set ?w'"
  proof
    fix r assume r: "r \<in> set rest"
    then have "r \<in> set w" "s_id r \<noteq> s_id sub" using Cons.prems by (auto simp: image_iff)
    then have "?g r = r" "?g r \<in> set ?w'" by auto
    then show "r \<in> set ?w'" by simp
  qed
  have d: "distinct (map s_id rest)" using Cons.prems by simp
  have cum: "\<And>k. cumulative_total pid k ?w' = cumulative_total pid k w"
    by (rule cumulative_total_map) auto
  have step: "recalculate pid w (sub # rest) = recalculate pid ?w' rest"
    using add by (simp add: cumulative_total_def)
  have "recalculate pid ?w' rest =
      map (\<lambda>s. if s_id s \<in> s_id ` set rest
               then s\<lparr>overall_points := cumulative_total pid (gameweek s) w\<rparr> else s) ?w'"
    using Cons.IH[OF wf' rest' d] cum by simp
  also have "\<dots> = map (\<lambda>s. if s_id s \<in> s_id ` set (sub # rest)
               then s\<lparr>overall_points := cumulative_total pid (gameweek s) w\<rparr> else s) w"
  proof -
    have "\<And>s. s \<in> set w \<Longrightarrow>
      (\<lambda>s. if s_id s \<in> s_id ` set rest
               then s\<lparr>overall_points := cumulative_total pid (gameweek s) w\<rparr> else s) (?g s)
      = (if s_id s \<in> s_id ` set (sub # rest)
               then s\<lparr>overall_points := cumulative_total pid (gameweek s) w\<rparr> else s)"
    proof -
      fix s assume s: "s \<in> set w"
      show "(\<lambda>s. if s_id s \<in> s_id ` set rest
               then s\<lparr>overall_points := cumulative_total pid (gameweek s) w\<rparr> else s) (?g s)
      = (if s_id s \<in> s_id ` set (sub # rest)
               then s\<lparr>overall_points := cumulative_total pid (gameweek s) w\<rparr> else s)"
      proof (cases "s_id s = s_id sub")
        case True
        then have "s = sub" using wf_store_inj[OF Cons.prems(1) s sub] by simp
        moreover have "s_id sub \<notin> s_id ` set rest" using Cons.prems(3) by auto
        ultimately show ?thesis by simp
      next
        case False
        then show ?thesis by simp
      qed
    qed
    then show ?thesis by (simp add: comp_def cong: map_cong)
  qed
  finally show ?case using step by simp
qed

lemma wf_store_filter: "wf_store w \<Longrightarrow> wf_store (filter P w)"
  by (simp add: wf_store_def distinct_map_filter)

lemma wf_store_sort_key: "wf_store w \<Longrightarrow> wf_store (sort_key k w)"
  by (simp add: wf_store_def distinct_map)

text \<open>The handler writes what section 4.2 lists, and commits.\<close>

lemma update_score_eq:
  assumes wf: "wf_store db" and get: "session_get db score_id = Some score"
  shows "update_score db_accepts db score_id p g wp wc =
           commit_and_redirect db_accepts db (update_writes db score_id p g wp wc) ''/scores''"
proof -
  define total where "total = sum_list (map (\<lambda>s. week_points s - week_cost s)
                    (filter (\<lambda>s. player_id s = p \<and> gameweek s \<le> g \<and> s_id s \<noteq> score_id) db))
                  + (wp - wc)"
  define f :: "Score \<Rightarrow> Score" where "f = (\<lambda>s. s\<lparr>player_id := p, gameweek := g, week_points := wp,
                               week_cost := wc, overall_points := total\<rparr>)"
  define w where "w = map (\<lambda>s. if s_id s = score_id then f s else s) db"
  define subs where "subs = sort_key gameweek (filter (\<lambda>s. player_id s = p \<and> gameweek s > g) w)"
  have mem: "score \<in> set db" "s_id score = score_id"
    using session_get_Some[OF get] by auto
  have add: "session_add db (f score) = w"
    using session_add_modify[OF wf mem(1), of f] mem(2) by (simp add: f_def w_def)
  have wfw: "wf_store w" using wf_store_session_add[OF wf, of "f score"] add by simp
  have s1: "set subs \<subseteq> set w" by (auto simp: subs_def)
  have s2: "distinct (map s_id subs)"
    using wf_store_sort_key[OF wf_store_filter[OF wfw]] by (simp add: subs_def wf_store_def)
  have ids: "\<And>s. s \<in> set w \<Longrightarrow> s_id s \<in> s_id ` set subs \<longleftrightarrow> player_id s = p \<and> gameweek s > g"
  proof -
    fix s assume s: "s \<in> set w"
    show "s_id s \<in> s_id ` set subs \<longleftrightarrow> player_id s = p \<and> gameweek s > g"
    proof
      assume "s_id s \<in> s_id ` set subs"
      then obtain r where r: "r \<in> set subs" "s_id r = s_id s" by (auto simp: image_iff)
      then have "r \<in> set w" "player_id r = p \<and> gameweek r > g" by (auto simp: subs_def)
      moreover from this r have "r = s" using wf_store_inj[OF wfw _ s] by simp
      ultimately show "player_id s = p \<and> gameweek s > g" by simp
    next
      assume "player_id s = p \<and> gameweek s > g"
      with s have "s \<in> set subs" by (simp add: subs_def)
      then show "s_id s \<in> s_id ` set subs" by simp
    qed
  qed
  have "recalculate p w subs = map (\<lambda>s. if s_id s \<in> s_id ` set subs
               then s\<lparr>overall_points := cumulative_total p (gameweek s) w\<rparr> else s) w"
    by (rule recalculate_eq[OF wfw s1 s2])
  also have "\<dots> = map (\<lambda>s. if player_id s = p \<and> gameweek s > g
                    then s\<lparr>overall_points := cumulative_total p (gameweek s) w\<rparr> else s) w"
    by (rule map_cong) (simp_all add: ids)
  also have "\<dots> = update_writes db score_id p g wp wc"
    unfolding update_writes_def Let_def w_def f_def total_def by (rule refl)
  finally have "recalculate p w subs = update_writes db score_id p g wp wc" .
  then show ?thesis
    using get add by (simp add: update_score_def Let_def f_def total_def subs_def)
qed

lemma sum_filter_map_cong:
  assumes "\<And>s. s \<in> set xs \<Longrightarrow> Q (h s) = Q s"
    and "\<And>s. s \<in> set xs \<Longrightarrow> Q s \<Longrightarrow> f (h s) = (f s :: int)"
  shows "sum_list (map f (filter Q (map h xs))) = sum_list (map f (filter Q xs))"
  using assms by (induction xs) auto

lemma update_writes_ids: "map s_id (update_writes db sid p g wp wc) = map s_id db"
  by (simp add: update_writes_def Let_def comp_def)

lemma wf_store_update_writes: "wf_store db \<Longrightarrow> wf_store (update_writes db sid p g wp wc)"
  by (simp add: wf_store_def update_writes_ids)

lemma update_writes_alt:
  "update_writes db sid p g wp wc =
     map (rescan_row p g (map (edit_row sid p g wp wc (others_total db sid p g + (wp - wc))) db))
       (map (edit_row sid p g wp wc (others_total db sid p g + (wp - wc))) db)"
  unfolding update_writes_def Let_def edit_row_def others_total_def rescan_row_def by (rule refl)

lemma rescan_row_simps [simp]:
  "s_id (rescan_row p g w s) = s_id s" "player_id (rescan_row p g w s) = player_id s"
  "gameweek (rescan_row p g w s) = gameweek s" "week_points (rescan_row p g w s) = week_points s"
  "week_cost (rescan_row p g w s) = week_cost s"
  by (simp_all add: rescan_row_def)

lemma edit_row_id [simp]: "s_id (edit_row sid p g wp wc t s) = s_id s"
  by (simp add: edit_row_def)

lemma edit_row_other [simp]: "s_id s \<noteq> sid \<Longrightarrow> edit_row sid p g wp wc t s = s"
  by (simp add: edit_row_def)

lemma edit_row_self [simp]:
  "player_id (edit_row (s_id s) p g wp wc t s) = p" "gameweek (edit_row (s_id s) p g wp wc t s) = g"
  "week_points (edit_row (s_id s) p g wp wc t s) = wp" "week_cost (edit_row (s_id s) p g wp wc t s) = wc"
  "overall_points (edit_row (s_id s) p g wp wc t s) = t"
  by (simp_all add: edit_row_def)

lemma cumulative_total_rescan [simp]:
  "cumulative_total q k (map (rescan_row p g w) xs) = cumulative_total q k xs"
  by (rule cumulative_total_map) simp_all

lemma rescan_row_twice:
  "map (rescan_row p g w) (map (rescan_row p g w) xs) = map (rescan_row p g w) xs"
  by (induction xs) (simp_all add: rescan_row_def)

lemma others_total_rescan_edit:
  "others_total (map (rescan_row p' g' w) (map (edit_row sid p'' g'' wp wc t) db)) sid p g
     = others_total db sid p g"
  unfolding others_total_def map_map
  by (rule sum_filter_map_cong) (auto simp: edit_row_def)

lemma update_writes_idem:
  "update_writes (update_writes db sid p g wp wc) sid p g wp wc = update_writes db sid p g wp wc"
proof -
  let ?t = "others_total db sid p g + (wp - wc)"
  let ?w = "map (edit_row sid p g wp wc ?t) db"
  let ?db' = "map (rescan_row p g ?w) ?w"
  have t: "others_total ?db' sid p g = others_total db sid p g"
    by (rule others_total_rescan_edit)
  have w': "map (edit_row sid p g wp wc ?t) ?db' = ?db'"
    unfolding map_map by (rule map_cong) (auto simp: edit_row_def rescan_row_def)
  have "update_writes ?db' sid p g wp wc = map (rescan_row p g ?db') ?db'"
    unfolding update_writes_alt[of ?db'] t w' ..
  also have "rescan_row p g ?db' = rescan_row p g ?w"
    by (rule ext) (simp add: rescan_row_def del: map_map)
  also have "map (rescan_row p g ?w) ?db' = ?db'"
    by (rule rescan_row_twice)
  finally show ?thesis unfolding update_writes_alt[of db] .
qed

section \<open>Deleting a score\<close>

lemma example_db_wf: "wf_store example_db"
  by (simp add: wf_store_def example_db_def)



section \<open>Unknown ids\<close>

text \<open>
  Claim C7. For an id that no record of the table has, an update and a delete (by either
  route) raise the 404 HTTPException and leave the table as it is; for an id that a record
  has, none of the three raises it.
\<close>

theorem not_found_iff_absent:
  "(score_id \<notin> set (map s_id db) \<longrightarrow>
      update_score db_accepts db score_id p g wp wc = (Inl (HTTPException 404), db)
      \<and> delete_score db_accepts db score_id = (Inl (HTTPException 404), db)
      \<and> delete_score_form db_accepts db score_id = (Inl (HTTPException 404), db))
   \<and> (score_id \<in> set (map s_id db) \<longrightarrow>
      fst (update_score db_accepts db score_id p g wp wc) \<noteq> Inl (HTTPException 404)
      \<and> fst (delete_score db_accepts db score_id) \<noteq> Inl (HTTPException 404)
      \<and> fst (delete_score_form db_accepts db score_id) \<noteq> Inl (HTTPException 404))"
proof (cases "session_get db score_id")
  case None
  then have "score_id \<notin> set (map s_id db)" by (simp add: session_get_None)
  with None show ?thesis
    by (simp add: update_score_def delete_score_def delete_score_form_def)
next
  case (Some score)
  then have "score_id \<in> set (map s_id db)" using session_get_None[of db score_id] by simp
  with Some show ?thesis
    by (simp add: update_score_def delete_score_def delete_score_form_def Let_def
          commit_and_redirect_def split: option.splits)
qed

theorem not_found_iff_absent_witness:
  "7 \<notin> set (map s_id example_db)
   \<and> update_score (list_all check_constraints) example_db 7 1 1 60 0
       = (Inl (HTTPException 404), example_db)
   \<and> delete_score (list_all check_constraints) example_db 7 = (Inl (HTTPException 404), example_db)
   \<and> delete_score_form (list_all check_constraints) example_db 7
       = (Inl (HTTPException 404), example_db)
   \<and> 1 \<in> set (map s_id example_db)
   \<and> fst (update_score (list_all check_constraints) example_db 1 1 1 60 0)
       \<noteq> Inl (HTTPException 404)
   \<and> fst (delete_score (list_all check_constraints) example_db 1) \<noteq> Inl (HTTPException 404)
   \<and> fst (delete_score_form (list_all check_constraints) example_db 1)
       \<noteq> Inl (HTTPException 404)"
proof -
  have a: "7 \<notin> set (map s_id example_db)" and b: "1 \<in> set (map s_id example_db)"
    by (simp_all add: example_db_def)
  show ?thesis
    using a b
      not_found_iff_absent[of 7 example_db "list_all check_constraints" 1 1 60 0]
      not_found_iff_absent[of 1 example_db "list_all check_constraints" 1 1 60 0]
    by blast
qed

section \<open>Reading scores with filters\<close>

text \<open>
  Claim C10. A filter value that \<open>int\<close> does not read (a non-empty string included) is
  ignored without an error: the read returns what it returns with that filter not
  supplied, and reports no value for it. With the other filter valid the result is exactly
  the scores matching that one; with both unreadable it is the whole table.
\<close>

theorem unreadable_filter_ignored:
  assumes "v \<noteq> []" and "py_int v = None"
  shows "scores py_strip py_int db (Some v) gameweek_q = scores py_strip py_int db None gameweek_q
       \<and> scores py_strip py_int db player_id_q (Some v) = scores py_strip py_int db player_id_q None
       \<and> (u \<noteq> [] \<and> py_strip u \<noteq> [] \<and> py_int u = Some n \<longrightarrow>
           scores py_strip py_int db (Some v) (Some u)
             = (filter (\<lambda>s. gameweek s = n) db, None, Some n)
           \<and> scores py_strip py_int db (Some u) (Some v)
             = (filter (\<lambda>s. player_id s = n) db, Some n, None))
       \<and> scores py_strip py_int db (Some v) (Some v) = (db, None, None)
       \<and> scores py_strip py_int db (Some v) None = (db, None, None)
       \<and> scores py_strip py_int db None (Some v) = (db, None, None)"
  using assms by (simp add: scores_def Let_def split: option.splits)

theorem unreadable_filter_ignored_witness:
  "''abc'' \<noteq> [] \<and> decimal_int ''abc'' = None \<and> decimal_int ''1'' = Some 1
   \<and> scores (filter (\<lambda>c. c \<noteq> CHR '' '')) decimal_int example_db (Some ''abc'') (Some ''1'')
       = (filter (\<lambda>s. gameweek s = 1) example_db, None, Some 1)
   \<and> fst (scores (filter (\<lambda>c. c \<noteq> CHR '' '')) decimal_int example_db (Some ''abc'') (Some ''1''))
       = [example_db ! 0, example_db ! 2]
   \<and> scores (filter (\<lambda>c. c \<noteq> CHR '' '')) decimal_int example_db (Some ''abc'') None
       = (example_db, None, None)"
proof -
  have a: "''abc'' \<noteq> []" and b: "decimal_int ''abc'' = None" and c: "decimal_int ''1'' = Some 1"
    by (simp_all add: decimal_int_def digit_def)
  show ?thesis
    using a b c
      unreadable_filter_ignored[of "''abc''" decimal_int "filter (\<lambda>c. c \<noteq> CHR '' '')"
        example_db None None "''1''" 1]
    by (simp add: example_db_def scores_def Let_def)
qed

section \<open>Updating a score\<close>


lemma update_score_cases:
  assumes "wf_store db"
  shows "update_score db_accepts db score_id p g wp wc =
     (if score_id \<notin> set (map s_id db) then (Inl (HTTPException 404), db)
      else if db_accepts (update_writes db score_id p g wp wc)
        then (Inr (RedirectResponse ''/scores'' 302), update_writes db score_id p g wp wc)
        else (Inl DatabaseError, db))"
proof (cases "session_get db score_id")
  case None
  then show ?thesis using session_get_None[of db score_id] by (simp add: update_score_def)
next
  case (Some score)
  then have "score_id \<in> set (map s_id db)" using session_get_None[of db score_id] by simp
  then show ?thesis
    using update_score_eq[OF assms Some, of db_accepts p g wp wc]
    by (simp add: commit_and_redirect_def session_commit_def)
qed




lemma update_writes_frame:
  assumes "i < length db" and "s_id (db ! i) \<noteq> sid" and "player_id (db ! i) \<noteq> p"
  shows "update_writes db sid p g wp wc ! i = db ! i"
  unfolding update_writes_alt using assms by (simp add: rescan_row_def)

lemma update_writes_length: "length (update_writes db sid p g wp wc) = length db"
  unfolding update_writes_alt by simp


lemma example_update:
  "update_score (list_all check_constraints) example_db 1 1 1 60 0 =
     (Inr (RedirectResponse ''/scores'' 302),
      [\<lparr>s_id = 1, player_id = 1, gameweek = 1, week_points = 60, week_cost = 0, overall_points = 60\<rparr>,
       \<lparr>s_id = 2, player_id = 1, gameweek = 2, week_points = 40, week_cost = 5, overall_points = 95\<rparr>,
       \<lparr>s_id = 3, player_id = 2, gameweek = 1, week_points = 10, week_cost = 0, overall_points = 10\<rparr>])"
  by (simp add: update_score_def example_db_def session_get_def session_add_def Let_def
        commit_and_redirect_def session_commit_def check_constraints_def)



text \<open>
  Claim C5. An update modifies no record of another player than the new one, the edited
  record apart (it is the one that is given the new player): every other record whose
  player is not the new player is the same afterwards, the remaining records of the
  edited record's old player among them, and no record is added or removed.
\<close>

theorem update_isolation:
  assumes "wf_store db"
    and "update_score db_accepts db score_id p g wp wc = (r, db')"
  shows "length db' = length db
       \<and> (\<forall>i<length db. s_id (db ! i) \<noteq> score_id \<and> player_id (db ! i) \<noteq> p \<longrightarrow> db' ! i = db ! i)"
proof -
  from assms have "db' = db \<or> db' = update_writes db score_id p g wp wc"
    by (auto simp: update_score_cases split: if_splits)
  then show ?thesis
    using update_writes_length update_writes_frame by auto
qed

theorem update_isolation_witness:
  "wf_store example_db
   \<and> update_score (list_all check_constraints) example_db 1 2 1 60 0
       = (Inr (RedirectResponse ''/scores'' 302),
          [\<lparr>s_id = 1, player_id = 2, gameweek = 1, week_points = 60, week_cost = 0, overall_points = 70\<rparr>,
           example_db ! 1, example_db ! 2])
   \<and> s_id (example_db ! 1) \<noteq> 1 \<and> player_id (example_db ! 1) \<noteq> 2
   \<and> overall_points (example_db ! 1) = 85"
proof -
  have u: "update_score (list_all check_constraints) example_db 1 2 1 60 0
       = (Inr (RedirectResponse ''/scores'' 302),
          [\<lparr>s_id = 1, player_id = 2, gameweek = 1, week_points = 60, week_cost = 0, overall_points = 70\<rparr>,
           example_db ! 1, example_db ! 2])"
    by (simp add: update_score_def example_db_def session_get_def session_add_def Let_def
        commit_and_redirect_def session_commit_def check_constraints_def)
  show ?thesis
    using example_db_wf u update_isolation[OF example_db_wf u]
    by (simp add: example_db_def)
qed

text \<open>
  Claim C8. An update of an existing score makes all its writes in one commit: when the
  database takes the transaction the table is the table with the edited record and every
  recomputed later record written, and when the commit fails the handler ends with the
  error and the table is the one before the request. No table in between is ever stored.
\<close>

theorem update_all_or_nothing:
  assumes "wf_store db" and "score_id \<in> set (map s_id db)"
  shows "(db_accepts (update_writes db score_id p g wp wc) \<longrightarrow>
            update_score db_accepts db score_id p g wp wc
              = (Inr (RedirectResponse ''/scores'' 302), update_writes db score_id p g wp wc))
       \<and> (\<not> db_accepts (update_writes db score_id p g wp wc) \<longrightarrow>
            update_score db_accepts db score_id p g wp wc = (Inl DatabaseError, db))"
  using assms by (simp add: update_score_cases)

theorem update_all_or_nothing_witness:
  "wf_store example_db \<and> 1 \<in> set (map s_id example_db)
   \<and> list_all check_constraints (update_writes example_db 1 1 1 60 0)
   \<and> update_score (list_all check_constraints) example_db 1 1 1 60 0
       = (Inr (RedirectResponse ''/scores'' 302), update_writes example_db 1 1 1 60 0)
   \<and> map overall_points (update_writes example_db 1 1 1 60 0) = [60, 95, 10]
   \<and> \<not> list_all check_constraints (update_writes example_db 1 1 1 0 60)
   \<and> map overall_points (update_writes example_db 1 1 1 0 60) = [- 60, - 25, 10]
   \<and> update_score (list_all check_constraints) example_db 1 1 1 0 60
       = (Inl DatabaseError, example_db)"
proof -
  have a: "1 \<in> set (map s_id example_db)" by (simp add: example_db_def)
  have w1: "update_writes example_db 1 1 1 60 0 =
      [\<lparr>s_id = 1, player_id = 1, gameweek = 1, week_points = 60, week_cost = 0, overall_points = 60\<rparr>,
       \<lparr>s_id = 2, player_id = 1, gameweek = 2, week_points = 40, week_cost = 5, overall_points = 95\<rparr>,
       \<lparr>s_id = 3, player_id = 2, gameweek = 1, week_points = 10, week_cost = 0, overall_points = 10\<rparr>]"
    by (simp add: update_writes_def example_db_def Let_def cumulative_total_def)
  have w2: "update_writes example_db 1 1 1 0 60 =
      [\<lparr>s_id = 1, player_id = 1, gameweek = 1, week_points = 0, week_cost = 60, overall_points = - 60\<rparr>,
       \<lparr>s_id = 2, player_id = 1, gameweek = 2, week_points = 40, week_cost = 5, overall_points = - 25\<rparr>,
       \<lparr>s_id = 3, player_id = 2, gameweek = 1, week_points = 10, week_cost = 0, overall_points = 10\<rparr>]"
    by (simp add: update_writes_def example_db_def Let_def cumulative_total_def)
  have c1: "list_all check_constraints (update_writes example_db 1 1 1 60 0)"
    unfolding w1 by (simp add: check_constraints_def)
  have c2: "\<not> list_all check_constraints (update_writes example_db 1 1 1 0 60)"
    unfolding w2 by (simp add: check_constraints_def)
  show ?thesis
    using example_db_wf a c1 c2
      update_all_or_nothing[OF example_db_wf a, of "list_all check_constraints" 1 1 60 0]
      update_all_or_nothing[OF example_db_wf a, of "list_all check_constraints" 1 1 0 60]
    by (simp add: w1 w2)
qed

text \<open>
  Claim C9. Running an update a second time with the same arguments, on the table the
  first run left, gives the same outcome and the same table as the first run alone.
\<close>

theorem update_idempotent:
  assumes "wf_store db"
  shows "update_score db_accepts (snd (update_score db_accepts db score_id p g wp wc))
           score_id p g wp wc
         = update_score db_accepts db score_id p g wp wc"
proof -
  let ?w = "update_writes db score_id p g wp wc"
  have wfw: "wf_store ?w" by (rule wf_store_update_writes[OF assms])
  show ?thesis
  proof (cases "score_id \<in> set (map s_id db) \<and> db_accepts ?w")
    case True
    then have first: "update_score db_accepts db score_id p g wp wc
        = (Inr (RedirectResponse ''/scores'' 302), ?w)"
      by (simp add: update_score_cases[OF assms])
    have "score_id \<in> set (map s_id ?w)" using True by (simp add: update_writes_ids)
    then have "update_score db_accepts ?w score_id p g wp wc
        = (Inr (RedirectResponse ''/scores'' 302), ?w)"
      using True by (simp add: update_score_cases[OF wfw] update_writes_idem)
    with first show ?thesis by simp
  next
    case False
    then have "snd (update_score db_accepts db score_id p g wp wc) = db"
      by (auto simp: update_score_cases[OF assms])
    then show ?thesis by simp
  qed
qed

theorem update_idempotent_witness:
  "wf_store example_db
   \<and> update_score (list_all check_constraints)
        (snd (update_score (list_all check_constraints) example_db 1 1 1 60 0)) 1 1 1 60 0
      = update_score (list_all check_constraints) example_db 1 1 1 60 0
   \<and> map overall_points (snd (update_score (list_all check_constraints) example_db 1 1 1 60 0))
      = [60, 95, 10]"
  using example_db_wf
    update_idempotent[OF example_db_wf, of "list_all check_constraints" 1 1 1 60 0]
  by (simp add: example_update)

section \<open>The upload of a gameweek\<close>

lemma bulk_players_Cons:
  "bulk_players py_int form gw w (player # players) =
     (case bulk_player py_int form gw w player of
        Inl e \<Rightarrow> Inl e
      | Inr w' \<Rightarrow> bulk_players py_int form gw w' players)"
  by (simp add: bulk_player_def Let_def split: option.splits)

lemma bulk_players_Cons_Inr:
  assumes "bulk_players py_int form gw w (player # players) = Inr w'"
  obtains w1 where "bulk_player py_int form gw w player = Inr w1"
    and "bulk_players py_int form gw w1 players = Inr w'"
  using assms unfolding bulk_players_Cons by (auto split: sum.splits)

lemma bulk_player_skip:
  "\<not> submitted form (p_id player) \<Longrightarrow> bulk_player py_int form gw w player = Inr w"
  by (auto simp: bulk_player_def submitted_def split: option.splits)

lemma bulk_player_submitted:
  assumes "form (Week_points_key (p_id player)) = Some a" "a \<noteq> []"
    and "form (Week_cost_key (p_id player)) = Some b" "b \<noteq> []"
    and "py_int a = Some wp" "py_int b = Some wc"
  shows "bulk_player py_int form gw w player =
     (case find (\<lambda>s. player_id s = p_id player \<and> gameweek s = gw) w of
        Some e \<Rightarrow> Inr (session_add w (e\<lparr>week_points := wp, week_cost := wc\<rparr>))
      | None \<Rightarrow>
          Inr (session_insert w
            \<lparr>s_id = 0, player_id = p_id player, gameweek = gw, week_points = wp, week_cost = wc,
             overall_points =
               sum_list (map (\<lambda>s. week_points s - week_cost s)
                 (filter (\<lambda>s. player_id s = p_id player) w)) + wp - wc\<rparr>))"
  using assms by (simp add: bulk_player_def Let_def split: option.splits)

text \<open>What a turn can do to the working copy.\<close>

lemma bulk_player_cases:
  assumes "bulk_player py_int form gw w player = Inr w'"
  shows "w' = w
    \<or> (\<exists>e wp wc. find (\<lambda>s. player_id s = p_id player \<and> gameweek s = gw) w = Some e
          \<and> w' = session_add w (e\<lparr>week_points := wp, week_cost := wc\<rparr>))
    \<or> (\<exists>row. player_id row = p_id player \<and> w' = session_insert w row)"
proof (cases "submitted form (p_id player)")
  case False
  then show ?thesis using assms by (simp add: bulk_player_skip)
next
  case True
  then obtain a b where ab: "form (Week_points_key (p_id player)) = Some a" "a \<noteq> []"
    "form (Week_cost_key (p_id player)) = Some b" "b \<noteq> []"
    by (auto simp: submitted_def split: option.splits)
  show ?thesis
  proof (cases "py_int a")
    case None
    then show ?thesis using assms ab by (simp add: bulk_player_def)
  next
    case wp: (Some wp)
    show ?thesis
    proof (cases "py_int b")
      case None
      then show ?thesis using assms ab wp by (simp add: bulk_player_def)
    next
      case wc: (Some wc)
      show ?thesis
      proof (cases "find (\<lambda>s. player_id s = p_id player \<and> gameweek s = gw) w")
        case (Some e)
        then show ?thesis
          using assms bulk_player_submitted[OF ab wp wc, of gw w] by auto
      next
        case None
        let ?row = "\<lparr>s_id = 0, player_id = p_id player, gameweek = gw, week_points = wp,
             week_cost = wc,
             overall_points =
               sum_list (map (\<lambda>s. week_points s - week_cost s)
                 (filter (\<lambda>s. player_id s = p_id player) w)) + wp - wc\<rparr>"
        have "w' = session_insert w ?row"
          using assms bulk_player_submitted[OF ab wp wc, of gw w] None by simp
        moreover have "player_id ?row = p_id player" by simp
        ultimately show ?thesis by blast
      qed
    qed
  qed
qed

lemma fold_max_ge: "(a::int) \<le> fold max xs a"
  by (induction xs arbitrary: a) (auto intro: order_trans[OF max.cobounded2])

lemma fold_max_mem: "x \<in> set xs \<Longrightarrow> (x::int) \<le> fold max xs a"
proof (induction xs arbitrary: a)
  case Nil then show ?case by simp
next
  case (Cons y ys)
  show ?case
  proof (cases "x = y")
    case True
    have "y \<le> max y a" by simp
    also have "\<dots> \<le> fold max ys (max y a)" by (rule fold_max_ge)
    finally show ?thesis using True by simp
  next
    case False
    with Cons show ?thesis by simp
  qed
qed

lemma next_id_fresh: "s \<in> set w \<Longrightarrow> s_id s < next_id w"
  using fold_max_mem[of "s_id s" "map s_id w" 0] by (simp add: next_id_def)

lemma wf_store_session_insert:
  assumes "wf_store w"
  shows "wf_store (session_insert w row)"
proof -
  have "next_id w \<notin> set (map s_id w)" using next_id_fresh[of _ w] by fastforce
  with assms show ?thesis by (simp add: wf_store_def session_insert_def)
qed

lemma find_mem: "find P xs = Some x \<Longrightarrow> x \<in> set xs \<and> P x"
  by (auto simp: find_Some_iff)

lemma bulk_player_wf:
  assumes "wf_store w" and "bulk_player py_int form gw w player = Inr w'"
  shows "wf_store w'"
  using bulk_player_cases[OF assms(2)] assms(1)
  by (auto simp: wf_store_session_add wf_store_session_insert)

lemma filter_map_frame:
  assumes "\<And>s. s \<in> set xs \<Longrightarrow> P (h s) = P s" and "\<And>s. s \<in> set xs \<Longrightarrow> P s \<Longrightarrow> h s = s"
  shows "filter P (map h xs) = filter P xs"
  using assms by (induction xs) auto

lemma bulk_player_frame:
  assumes "wf_store w" and "p_id player \<noteq> q" and "bulk_player py_int form gw w player = Inr w'"
  shows "filter (\<lambda>s. player_id s = q) w' = filter (\<lambda>s. player_id s = q) w"
proof -
  from bulk_player_cases[OF assms(3)] consider
    (same) "w' = w"
  | (upd) e wp wc where "find (\<lambda>s. player_id s = p_id player \<and> gameweek s = gw) w = Some e"
      "w' = session_add w (e\<lparr>week_points := wp, week_cost := wc\<rparr>)"
  | (new) row where "player_id row = p_id player" "w' = session_insert w row"
    by blast
  then show ?thesis
  proof cases
    case same then show ?thesis by simp
  next
    case upd
    from find_mem[OF upd(1)] have e: "e \<in> set w" "player_id e = p_id player" by auto
    have w': "w' = map (\<lambda>s. if s_id s = s_id e then s\<lparr>week_points := wp, week_cost := wc\<rparr> else s) w"
      using session_add_modify[OF assms(1) e(1), of "\<lambda>s. s\<lparr>week_points := wp, week_cost := wc\<rparr>"]
      by (simp add: upd(2))
    show ?thesis unfolding w'
    proof (rule filter_map_frame)
      fix s assume "s \<in> set w"
      show "(player_id (if s_id s = s_id e then s\<lparr>week_points := wp, week_cost := wc\<rparr> else s) = q)
           = (player_id s = q)" by simp
    next
      fix s assume s: "s \<in> set w" "player_id s = q"
      then have "s \<noteq> e" using e(2) assms(2) by auto
      then have "s_id s \<noteq> s_id e" using wf_store_inj[OF assms(1) s(1) e(1)] by auto
      then show "(if s_id s = s_id e then s\<lparr>week_points := wp, week_cost := wc\<rparr> else s) = s"
        by simp
    qed
  next
    case new
    then show ?thesis using assms(2) by (simp add: session_insert_def)
  qed
qed


lemma bulk_players_frame:
  "wf_store w \<Longrightarrow> q \<notin> p_id ` set ps \<Longrightarrow> bulk_players py_int form gw w ps = Inr w' \<Longrightarrow>
   filter (\<lambda>s. player_id s = q) w' = filter (\<lambda>s. player_id s = q) w"
proof (induction ps arbitrary: w)
  case Nil then show ?case by simp
next
  case (Cons r ps)
  from Cons.prems(3) obtain w1 where 1: "bulk_player py_int form gw w r = Inr w1"
    and 2: "bulk_players py_int form gw w1 ps = Inr w'"
    by (rule bulk_players_Cons_Inr)
  have r: "p_id r \<noteq> q" and rest: "q \<notin> p_id ` set ps" using Cons.prems(2) by auto
  have "filter (\<lambda>s. player_id s = q) w' = filter (\<lambda>s. player_id s = q) w1"
    by (rule Cons.IH[OF bulk_player_wf[OF Cons.prems(1) 1] rest 2])
  also have "\<dots> = filter (\<lambda>s. player_id s = q) w"
    by (rule bulk_player_frame[OF Cons.prems(1) r 1])
  finally show ?case .
qed

lemma find_conj_filter: "find (\<lambda>s. P s \<and> Q s) xs = find Q (filter P xs)"
  by (induction xs) auto

lemma filter_map_commute:
  assumes "\<And>s. P (h s) = P s"
  shows "filter P (map h xs) = map h (filter P xs)"
  by (induction xs) (simp_all add: assms)

lemma bulk_player_own:
  assumes wf: "wf_store w"
    and form: "form (Week_points_key (p_id player)) = Some a" "a \<noteq> []"
      "form (Week_cost_key (p_id player)) = Some b" "b \<noteq> []"
      "py_int a = Some wp" "py_int b = Some wc"
    and run: "bulk_player py_int form gw w player = Inr w'"
  shows "filter (\<lambda>s. player_id s = p_id player) w'
     = upload_rows (p_id player) gw wp wc (next_id w) (filter (\<lambda>s. player_id s = p_id player) w)"
proof (cases "find (\<lambda>s. player_id s = p_id player \<and> gameweek s = gw) w")
  case None
  then have n: "find (\<lambda>s. gameweek s = gw) (filter (\<lambda>s. player_id s = p_id player) w) = None"
    by (simp add: find_conj_filter)
  from run None have "w' = session_insert w
            \<lparr>s_id = 0, player_id = p_id player, gameweek = gw, week_points = wp, week_cost = wc,
             overall_points =
               sum_list (map (\<lambda>s. week_points s - week_cost s)
                 (filter (\<lambda>s. player_id s = p_id player) w)) + wp - wc\<rparr>"
    by (simp add: bulk_player_submitted[OF form])
  then show ?thesis by (simp add: upload_rows_def n session_insert_def)
next
  case (Some e)
  then have n: "find (\<lambda>s. gameweek s = gw) (filter (\<lambda>s. player_id s = p_id player) w) = Some e"
    by (simp add: find_conj_filter)
  from find_mem[OF Some] have e: "e \<in> set w" by simp
  from run Some have "w' = session_add w (e\<lparr>week_points := wp, week_cost := wc\<rparr>)"
    by (simp add: bulk_player_submitted[OF form])
  then have w': "w' = map (\<lambda>s. if s_id s = s_id e then s\<lparr>week_points := wp, week_cost := wc\<rparr> else s) w"
    using session_add_modify[OF wf e, of "\<lambda>s. s\<lparr>week_points := wp, week_cost := wc\<rparr>"] by simp
  show ?thesis unfolding w' upload_rows_def n
    by (simp add: filter_map_commute)
qed

lemma bulk_players_own:
  assumes "wf_store w" and "distinct (map p_id ps)" and "player \<in> set ps"
    and form: "form (Week_points_key (p_id player)) = Some a" "a \<noteq> []"
      "form (Week_cost_key (p_id player)) = Some b" "b \<noteq> []"
      "py_int a = Some wp" "py_int b = Some wc"
    and "bulk_players py_int form gw w ps = Inr w'"
  shows "\<exists>i. filter (\<lambda>s. player_id s = p_id player) w'
     = upload_rows (p_id player) gw wp wc i (filter (\<lambda>s. player_id s = p_id player) w)"
  using assms(1,2,3,10)
proof (induction ps arbitrary: w)
  case Nil then show ?case by simp
next
  case (Cons q ps)
  from Cons.prems(4) obtain w1 where 1: "bulk_player py_int form gw w q = Inr w1"
    and 2: "bulk_players py_int form gw w1 ps = Inr w'"
    by (rule bulk_players_Cons_Inr)
  have wf1: "wf_store w1" by (rule bulk_player_wf[OF Cons.prems(1) 1])
  show ?case
  proof (cases "p_id q = p_id player")
    case True
    then have "p_id player \<notin> p_id ` set ps" using Cons.prems(2) by auto
    then have "filter (\<lambda>s. player_id s = p_id player) w' = filter (\<lambda>s. player_id s = p_id player) w1"
      using bulk_players_frame[OF wf1 _ 2] by blast
    moreover have "filter (\<lambda>s. player_id s = p_id player) w1
      = upload_rows (p_id player) gw wp wc (next_id w) (filter (\<lambda>s. player_id s = p_id player) w)"
      using bulk_player_own[OF Cons.prems(1), of form q a b py_int wp wc gw w1] form 1 True
      by simp
    ultimately show ?thesis by auto
  next
    case False
    then have "player \<in> set ps" "distinct (map p_id ps)" using Cons.prems(2,3) by auto
    from Cons.IH[OF wf1 this(2) this(1) 2]
    obtain i where "filter (\<lambda>s. player_id s = p_id player) w'
       = upload_rows (p_id player) gw wp wc i (filter (\<lambda>s. player_id s = p_id player) w1)"
      by blast
    moreover have "filter (\<lambda>s. player_id s = p_id player) w1 = filter (\<lambda>s. player_id s = p_id player) w"
      by (rule bulk_player_frame[OF Cons.prems(1) False 1])
    ultimately show ?thesis by auto
  qed
qed

lemma create_scores_bulk_Inr:
  assumes "create_scores_bulk py_int db_accepts players db form = (Inr r, db')"
  obtains gw where "form_gameweek py_int form = Some gw"
    and "bulk_players py_int form gw db players = Inr db'"
  using assms
  by (auto simp: create_scores_bulk_def commit_and_redirect_def session_commit_def
        split: option.splits sum.splits if_splits)

lemmas upload_eval =
  create_scores_bulk_def form_gameweek_def decimal_int_def digit_def example_players_def
  session_insert_def next_id_def session_add_def commit_and_redirect_def session_commit_def
  check_constraints_def Let_def



lemma example_upload_again_gw1:
  "create_scores_bulk decimal_int (list_all check_constraints) example_players example_db
     upload_again_gw1
     = (Inr (RedirectResponse ''/scores'' 302),
        [\<lparr>s_id = 1, player_id = 1, gameweek = 1, week_points = 60, week_cost = 0, overall_points = 50\<rparr>,
         \<lparr>s_id = 2, player_id = 1, gameweek = 2, week_points = 40, week_cost = 5, overall_points = 85\<rparr>,
         \<lparr>s_id = 3, player_id = 2, gameweek = 1, week_points = 20, week_cost = 0, overall_points = 10\<rparr>])"
  by (simp add: upload_eval upload_again_gw1_def example_db_def)





text \<open>
  Claim C4. For a player of the upload with both fields supplied who already has a record
  for the uploaded gameweek, the upload writes the submitted points and cost into that
  record (the first one found) and nothing else of that player: the record keeps its
  total, and the player's other records are as they were. No total is recomputed.
\<close>

theorem bulk_overwrite_frame:
  assumes "wf_store db" and "distinct (map p_id players)" and "player \<in> set players"
    and "form (Week_points_key (p_id player)) = Some a" and "a \<noteq> []"
    and "form (Week_cost_key (p_id player)) = Some b" and "b \<noteq> []"
    and "py_int a = Some wp" and "py_int b = Some wc"
    and "form_gameweek py_int form = Some g"
    and "find (\<lambda>s. player_id s = p_id player \<and> gameweek s = g) db = Some e"
    and "create_scores_bulk py_int db_accepts players db form = (Inr r, db')"
  shows "filter (\<lambda>s. player_id s = p_id player) db'
           = map (\<lambda>s. if s_id s = s_id e then s\<lparr>week_points := wp, week_cost := wc\<rparr> else s)
               (filter (\<lambda>s. player_id s = p_id player) db)
       \<and> map overall_points (filter (\<lambda>s. player_id s = p_id player) db')
           = map overall_points (filter (\<lambda>s. player_id s = p_id player) db)"
proof -
  from assms(12) assms(10) have run: "bulk_players py_int form g db players = Inr db'"
    by (auto elim: create_scores_bulk_Inr)
  have some: "find (\<lambda>s. gameweek s = g) (filter (\<lambda>s. player_id s = p_id player) db) = Some e"
    using assms(11) by (simp add: find_conj_filter)
  from bulk_players_own[OF assms(1-9) run]
  have first: "filter (\<lambda>s. player_id s = p_id player) db'
           = map (\<lambda>s. if s_id s = s_id e then s\<lparr>week_points := wp, week_cost := wc\<rparr> else s)
               (filter (\<lambda>s. player_id s = p_id player) db)"
    by (simp add: upload_rows_def some)
  have "map overall_points (filter (\<lambda>s. player_id s = p_id player) db')
           = map overall_points (filter (\<lambda>s. player_id s = p_id player) db)"
    unfolding first map_map by (rule map_cong) simp_all
  with first show ?thesis by blast
qed

theorem bulk_overwrite_frame_witness:
  "wf_store example_db \<and> distinct (map p_id example_players)
   \<and> hd example_players \<in> set example_players \<and> p_id (hd example_players) = 1
   \<and> upload_again_gw1 (Week_points_key 1) = Some ''60''
   \<and> upload_again_gw1 (Week_cost_key 1) = Some ''0''
   \<and> decimal_int ''60'' = Some 60 \<and> decimal_int ''0'' = Some 0
   \<and> form_gameweek decimal_int upload_again_gw1 = Some 1
   \<and> find (\<lambda>s. player_id s = 1 \<and> gameweek s = 1) example_db = Some (hd example_db)
   \<and> fst (create_scores_bulk decimal_int (list_all check_constraints) example_players
               example_db upload_again_gw1) = Inr (RedirectResponse ''/scores'' 302)
   \<and> filter (\<lambda>s. player_id s = 1)
         (snd (create_scores_bulk decimal_int (list_all check_constraints) example_players
               example_db upload_again_gw1))
        = [\<lparr>s_id = 1, player_id = 1, gameweek = 1, week_points = 60, week_cost = 0,
            overall_points = 50\<rparr>,
           example_db ! 1]
   \<and> map overall_points (filter (\<lambda>s. player_id s = 1)
         (snd (create_scores_bulk decimal_int (list_all check_constraints) example_players
               example_db upload_again_gw1))) = [50, 85]"
proof -
  have h: "wf_store example_db" "distinct (map p_id example_players)"
    "hd example_players \<in> set example_players"
    "upload_again_gw1 (Week_points_key (p_id (hd example_players))) = Some ''60''" "''60'' \<noteq> []"
    "upload_again_gw1 (Week_cost_key (p_id (hd example_players))) = Some ''0''" "''0'' \<noteq> []"
    "decimal_int ''60'' = Some 60" "decimal_int ''0'' = Some 0"
    "form_gameweek decimal_int upload_again_gw1 = Some 1"
    "find (\<lambda>s. player_id s = p_id (hd example_players) \<and> gameweek s = 1) example_db
       = Some (hd example_db)"
    by (simp_all add: wf_store_def example_players_def upload_again_gw1_def decimal_int_def
          digit_def form_gameweek_def example_db_def)
  show ?thesis
    using h bulk_overwrite_frame[OF h example_upload_again_gw1]
    unfolding example_upload_again_gw1
    by (simp add: example_players_def example_db_def wf_store_def)
qed

section \<open>The running-total invariant\<close>























end
